theory Spec2Isabelle
  imports Complex_Main "HOL-Library.Monad_Syntax"
begin

section \<open>Suspended Reality: gesture classifier, hand physics and smear field\<close>

text \<open>
  The development embeds three parts of the repository:
  \<^item> the per-slot body of \<open>detect\<close> in \<open>components/WebcamHandler.tsx\<close>
    (gesture classification and temporal smoothing),
  \<^item> the class \<open>HandPhysics\<close> and the \<open>useFrame\<close> callback of \<open>FluidScene\<close>,
  \<^item> the fragment shader \<open>smearFragmentShader\<close> (the accumulation field).

  Numbers are modelled as mathematical reals: JavaScript doubles and GLSL floats are
  read as the real numbers they approximate, so rounding, infinities and overflow are
  outside the model. The two places where the source computes something that real
  arithmetic leaves undefined are kept explicit: a property read on \<open>undefined\<close>
  (a JavaScript \<open>TypeError\<close>) is the value \<open>None\<close> of the classifier, and the
  GLSL \<open>normalize\<close> of the zero vector is the value \<open>None\<close> of \<open>normalize\<close>.
\<close>

subsection \<open>Vectors and GLSL built-ins\<close>

type_synonym vec2 = "real \<times> real"

definition vadd :: "vec2 \<Rightarrow> vec2 \<Rightarrow> vec2" where
  "vadd p q = (fst p + fst q, snd p + snd q)"

definition vsub :: "vec2 \<Rightarrow> vec2 \<Rightarrow> vec2" where
  "vsub p q = (fst p - fst q, snd p - snd q)"

definition vscale :: "vec2 \<Rightarrow> real \<Rightarrow> vec2" where
  "vscale p k = (fst p * k, snd p * k)"

definition lengthSq :: "vec2 \<Rightarrow> real" where
  "lengthSq p = fst p * fst p + snd p * snd p"

definition vlength :: "vec2 \<Rightarrow> real" where
  "vlength p = sqrt (lengthSq p)"

definition distance :: "vec2 \<Rightarrow> vec2 \<Rightarrow> real" where
  "distance p q = vlength (vsub p q)"

text \<open>GLSL \<open>normalize\<close>: the result for a vector of length zero is undefined.\<close>

definition normalize :: "vec2 \<Rightarrow> vec2 option" where
  "normalize p = (if vlength p = 0 then None else Some (vscale p (1 / vlength p)))"

definition clamp :: "real \<Rightarrow> real \<Rightarrow> real \<Rightarrow> real" where
  "clamp v lo hi = min (max v lo) hi"

text \<open>
  GLSL \<open>smoothstep(edge0, edge1, x)\<close>, by its defining formula. The shader calls it with
  \<open>edge0 > edge1\<close>, which the formula handles: the result falls from 1 to 0 as \<open>x\<close> grows.
\<close>

definition smoothstep :: "real \<Rightarrow> real \<Rightarrow> real \<Rightarrow> real" where
  "smoothstep edge0 edge1 v =
     (let t = clamp ((v - edge0) / (edge1 - edge0)) 0 1 in t * t * (3 - 2 * t))"

definition mix :: "real \<Rightarrow> real \<Rightarrow> real \<Rightarrow> real" where
  "mix u v t = u * (1 - t) + v * t"

text \<open>A uniform array of two elements, read at the loop index.\<close>

definition at2 :: "'a \<times> 'a \<Rightarrow> nat \<Rightarrow> 'a" where
  "at2 arr i = (if i = 0 then fst arr else snd arr)"

subsection \<open>The smear shader (accumulation field)\<close>

text \<open>
  One texel of the field, \<open>vec4(dirX, dirY, speed, intensity)\<close>. The two direction
  channels are written together from one \<open>normalize\<close>; \<open>None\<close> records that they hold
  the undefined result of normalizing a zero vector.
\<close>

record cell =
  direction :: "vec2 option"
  speed :: real
  intensity :: real

text \<open>A render target is created without data, which WebGL reads as zeros.\<close>

definition initial_cell :: cell where
  "initial_cell = \<lparr>direction = Some (0, 0), speed = 0, intensity = 0\<rparr>"

record smear_uniforms =
  uIndexPos :: "vec2 \<times> vec2"
  uIndexVel :: "vec2 \<times> vec2"
  uDecay :: real
  uRadius :: real
  uIntensity :: real

text \<open>The decay block: lines 44 to 61 of the shader.\<close>

definition decay_alpha :: "smear_uniforms \<Rightarrow> cell \<Rightarrow> real" where
  "decay_alpha u lastState =
     (let storedSpeed = speed lastState;
          momentumFactor = 1 + storedSpeed * 2;
          dynamicDecay = uDecay u / momentumFactor;
          newAlpha = intensity lastState * (1 - dynamicDecay)
      in if newAlpha < 0.005 then 0 else newAlpha)"

text \<open>
  The body of the loop over the two hands. The accumulator is
  \<open>(totalBrush, totalVel, maxInputSpeed)\<close>; \<open>totalVel\<close> is optional because it adds
  the result of \<open>normalize\<close>.
\<close>

definition brush_hand ::
  "smear_uniforms \<Rightarrow> vec2 \<Rightarrow> nat \<Rightarrow> real \<times> vec2 option \<times> real \<Rightarrow> real \<times> vec2 option \<times> real" where
  "brush_hand u vUv i acc =
     (case acc of (totalBrush, totalVel, maxInputSpeed) \<Rightarrow>
        let handPos = (fst (at2 (uIndexPos u) i), 1 - snd (at2 (uIndexPos u) i));
            dist = distance vUv handPos;
            velMag = vlength (at2 (uIndexVel u) i)
        in if velMag > 0.02 then
             (let brush = smoothstep (uRadius u) (uRadius u * 0.4) dist
              in if brush > 0 then
                   (let dir = normalize (at2 (uIndexVel u) i)
                    in (totalBrush + brush,
                        (case (totalVel, dir) of
                           (Some tv, Some d) \<Rightarrow> Some (vadd tv (vscale d brush))
                         | _ \<Rightarrow> None),
                        max maxInputSpeed velMag))
                 else acc)
           else acc)"

definition brush_loop :: "smear_uniforms \<Rightarrow> vec2 \<Rightarrow> real \<times> vec2 option \<times> real" where
  "brush_loop u vUv = brush_hand u vUv 1 (brush_hand u vUv 0 (0, Some (0, 0), 0))"

definition totalBrush_of :: "smear_uniforms \<Rightarrow> vec2 \<Rightarrow> real" where
  "totalBrush_of u vUv = fst (brush_loop u vUv)"

text \<open>\<open>main\<close> of the shader: the new texel from the previous one.\<close>

definition smearFragmentShader :: "smear_uniforms \<Rightarrow> vec2 \<Rightarrow> cell \<Rightarrow> cell" where
  "smearFragmentShader u vUv lastState =
     (let newAlpha = decay_alpha u lastState;
          (totalBrush, totalVel, maxInputSpeed) = brush_loop u vUv
      in if totalBrush > 0 then
           (let newAlpha' = min 1 (newAlpha + uIntensity u * totalBrush);
                encodedDir = (case totalVel of
                                None \<Rightarrow> None
                              | Some tv \<Rightarrow>
                                  (case normalize tv of
                                     None \<Rightarrow> None
                                   | Some n \<Rightarrow> Some (vadd (vscale n 0.5) (0.5, 0.5))));
                encodedSpeed = clamp maxInputSpeed 0 1;
                w = min 1 (totalBrush * 2.5)
            in \<lparr>direction =
                  (case (direction lastState, encodedDir) of
                     (Some old, Some e) \<Rightarrow> Some (mix (fst old) (fst e) w, mix (snd old) (snd e) w)
                   | _ \<Rightarrow> None),
                speed = mix (speed lastState) encodedSpeed w,
                intensity = newAlpha'\<rparr>)
         else \<lparr>direction = direction lastState, speed = speed lastState, intensity = newAlpha\<rparr>)"

text \<open>A cell over a sequence of ticks, each with its own uniforms.\<close>

fun run_cell :: "vec2 \<Rightarrow> cell \<Rightarrow> smear_uniforms list \<Rightarrow> cell" where
  "run_cell vUv c [] = c"
| "run_cell vUv c (u # us) = run_cell vUv (smearFragmentShader u vUv c) us"

text \<open>The ranges of the three smear sliders of the control panel.\<close>

definition smear_params_ok :: "smear_uniforms \<Rightarrow> bool" where
  "smear_params_ok u \<longleftrightarrow>
     0.001 \<le> uDecay u \<and> uDecay u \<le> 0.1 \<and>
     0.05 \<le> uRadius u \<and> uRadius u \<le> 0.4 \<and>
     0 \<le> uIntensity u \<and> uIntensity u \<le> 2"

definition cell_ok :: "cell \<Rightarrow> bool" where
  "cell_ok c \<longleftrightarrow> 0 \<le> intensity c \<and> intensity c \<le> 1 \<and> 0 \<le> speed c \<and> speed c \<le> 1"

subsection \<open>Shared types (\<open>types.ts\<close>)\<close>

datatype GestureType = NONE | PALM | PINCH

text \<open>
  \<open>HandPoint.indexTip\<close> and the classifier's \<open>indexTipState\<close> have the same four
  fields \<open>x, y, vx, vy\<close>; the fields of \<open>HandPoint\<close> are \<open>gesture, x, y, z, indexTip\<close>.
  The one-letter field names carry a prefix here.
\<close>

record IndexTip =
  tip_x :: real
  tip_y :: real
  tip_vx :: real
  tip_vy :: real

record HandPoint =
  gesture :: GestureType
  px :: real
  py :: real
  pz :: real
  indexTip :: IndexTip

type_synonym HandData = "HandPoint \<times> HandPoint"

text \<open>Of \<open>FluidParams\<close>, the fields that the embedded code reads.\<close>

record FluidParams =
  reboundElasticity :: real
  smearIntensity :: real
  smearDecayTime :: real
  smearRadius :: real

subsection \<open>The classifier (\<open>detect\<close> in \<open>WebcamHandler.tsx\<close>)\<close>

record landmark =
  lx :: real
  ly :: real
  lz :: real

record category =
  categoryName :: string

text \<open>
  The detector's answer: \<open>results.landmarks\<close> (which the code tests for presence) and
  \<open>results.handedness\<close>, one list of categories per hand.
\<close>

record results =
  landmarks :: "landmark list list option"
  handedness :: "category list list"

record hand_state =
  s_gesture :: GestureType
  smoothedPos :: vec2
  smoothedZ :: real
  indexTipState :: IndexTip

definition initial_hand_state :: hand_state where
  "initial_hand_state =
     \<lparr>s_gesture = NONE, smoothedPos = (0.5, 0.5), smoothedZ = 0,
      indexTipState = \<lparr>tip_x = 0.5, tip_y = 0.5, tip_vx = 0, tip_vy = 0\<rparr>\<rparr>"

definition initial_hand_point :: HandPoint where
  "initial_hand_point =
     \<lparr>gesture = NONE, px = 0.5, py = 0.5, pz = 0,
      indexTip = \<lparr>tip_x = 0.5, tip_y = 0.5, tip_vx = 0, tip_vy = 0\<rparr>\<rparr>"

definition PINCH_THRESHOLD :: real where
  "PINCH_THRESHOLD = 0.05"

definition PALM_OPEN_FINGER_COUNT :: nat where
  "PALM_OPEN_FINGER_COUNT = 5"

definition SMOOTHING_FACTOR :: real where
  "SMOOTHING_FACTOR = 0.25"

definition VELOCITY_SMOOTHING :: real where
  "VELOCITY_SMOOTHING = 0.3"

definition lerp :: "real \<Rightarrow> real \<Rightarrow> real \<Rightarrow> real" where
  "lerp start end amt = (1 - amt) * start + amt * end"

definition hypot :: "real \<Rightarrow> real \<Rightarrow> real" where
  "hypot u v = sqrt (u * u + v * v)"

text \<open>
  A JavaScript array read: an index past the end gives \<open>undefined\<close>, and the first
  property read on it throws \<open>TypeError\<close>. Every element the classifier reads has a
  property read from it on the same path, so the throw is placed at the array read:
  \<open>None\<close> from here on is the thrown \<open>TypeError\<close>.
\<close>

definition js_index :: "'a list \<Rightarrow> nat \<Rightarrow> 'a option" where
  "js_index xs i = (if i < length xs then Some (xs ! i) else None)"

definition fingersIndices :: "(nat \<times> nat) list" where
  "fingersIndices = [(4, 2), (8, 6), (12, 10), (16, 14), (20, 18)]"

text \<open>The loop over \<open>fingersIndices\<close>, each entry a pair \<open>(tip, pip)\<close>.\<close>

fun count_extended :: "landmark list \<Rightarrow> landmark \<Rightarrow> (nat \<times> nat) list \<Rightarrow> nat \<Rightarrow> nat option" where
  "count_extended lms wrist [] extendedFingersCount = Some extendedFingersCount"
| "count_extended lms wrist (f # fs) extendedFingersCount =
     do {
       tip \<leftarrow> js_index lms (fst f);
       pip \<leftarrow> js_index lms (snd f);
       count_extended lms wrist fs
         (if hypot (lx tip - lx wrist) (ly tip - ly wrist)
               > hypot (lx pip - lx wrist) (ly pip - ly wrist) * 1.1
          then extendedFingersCount + 1 else extendedFingersCount)
     }"

text \<open>The branch \<open>i < foundHandsCount\<close>: a hand was found for the slot.\<close>

definition detect_found ::
  "hand_state \<Rightarrow> landmark list \<Rightarrow> category list option \<Rightarrow> (hand_state \<times> HandPoint) option" where
  "detect_found state lms cats_opt =
     do {
       cats \<leftarrow> cats_opt;
       cat0 \<leftarrow> js_index cats 0;
       wrist \<leftarrow> js_index lms 0;
       thumbTip \<leftarrow> js_index lms 4;
       indexTip' \<leftarrow> js_index lms 8;
       middleMcp \<leftarrow> js_index lms 9;
       indexMcp \<leftarrow> js_index lms 5;
       pinkyMcp \<leftarrow> js_index lms 17;
       extendedFingersCount \<leftarrow> count_extended lms wrist fingersIndices 0;
       let handedness' = categoryName cat0;
           handSize = sqrt ((lx wrist - lx middleMcp)\<^sup>2 + (ly wrist - ly middleMcp)\<^sup>2);
           rawZ = (handSize - 0.05) / 0.2;
           targetZ = max 0 (min 1 rawZ);
           pinchDist = hypot (lx thumbTip - lx indexTip') (ly thumbTip - ly indexTip');
           isPinching = (pinchDist < PINCH_THRESHOLD);
           ax = lx indexMcp - lx wrist;
           ay = ly indexMcp - ly wrist;
           bx = lx pinkyMcp - lx wrist;
           by' = ly pinkyMcp - ly wrist;
           crossZ = ax * by' - ay * bx;
           isBackFacingCamera =
             (if handedness' = ''Left'' then crossZ < - 0.002 else crossZ > 0.002);
           isPalmOpen = (extendedFingersCount \<ge> PALM_OPEN_FINGER_COUNT \<and> isBackFacingCamera);
           detectedGesture = (if isPinching then PINCH else if isPalmOpen then PALM else NONE);
           targetX = (if isPinching then (lx thumbTip + lx indexTip') / 2 else lx middleMcp);
           targetY = (if isPinching then (ly thumbTip + ly indexTip') / 2 else ly middleMcp);
           rawVx = lx indexTip' - tip_x (indexTipState state);
           rawVy = ly indexTip' - tip_y (indexTipState state);
           state' =
             \<lparr>s_gesture = detectedGesture,
              smoothedPos = (lerp (fst (smoothedPos state)) targetX SMOOTHING_FACTOR,
                             lerp (snd (smoothedPos state)) targetY SMOOTHING_FACTOR),
              smoothedZ = lerp (smoothedZ state) targetZ 0.1,
              indexTipState =
                \<lparr>tip_x = lx indexTip', tip_y = ly indexTip',
                 tip_vx = lerp (tip_vx (indexTipState state)) (rawVx * 50) VELOCITY_SMOOTHING,
                 tip_vy = lerp (tip_vy (indexTipState state)) (rawVy * 50) VELOCITY_SMOOTHING\<rparr>\<rparr>
       in Some (state',
                \<lparr>gesture = s_gesture state',
                 px = fst (smoothedPos state'), py = snd (smoothedPos state'),
                 pz = smoothedZ state',
                 indexTip = indexTipState state'\<rparr>)
     }"

text \<open>The \<open>else\<close> branch: no hand for the slot this tick.\<close>

definition detect_lost :: "hand_state \<Rightarrow> hand_state \<times> HandPoint" where
  "detect_lost state =
     (let state' = state\<lparr>s_gesture := NONE,
                         smoothedZ := lerp (smoothedZ state) 0 0.1,
                         indexTipState := (indexTipState state)\<lparr>tip_vx := 0, tip_vy := 0\<rparr>\<rparr>
      in (state',
          \<lparr>gesture = NONE,
           px = fst (smoothedPos state'), py = snd (smoothedPos state'),
           pz = smoothedZ state',
           indexTip = \<lparr>tip_x = tip_x (indexTipState state'), tip_y = tip_y (indexTipState state'),
                       tip_vx = 0, tip_vy = 0\<rparr>\<rparr>))"

definition foundHandsCount :: "results \<Rightarrow> nat" where
  "foundHandsCount res = (case landmarks res of None \<Rightarrow> 0 | Some ls \<Rightarrow> length ls)"

text \<open>The body of \<open>for (let i = 0; i < 2; i++)\<close> for slot \<open>i\<close>.\<close>

definition detect_slot :: "results \<Rightarrow> nat \<Rightarrow> hand_state \<Rightarrow> (hand_state \<times> HandPoint) option" where
  "detect_slot res i state =
     (if i < foundHandsCount res
      then detect_found state (the (landmarks res) ! i) (js_index (handedness res) i)
      else Some (detect_lost state))"

text \<open>
  One detection tick over both slots, that is one run of the block that \<open>detect\<close>
  executes for a new video frame: the new slot states and the \<open>HandData\<close> handed to
  \<open>onHandUpdate\<close>. A throw in either slot leaves the callback uncalled.
\<close>

definition detect :: "results \<Rightarrow> hand_state \<times> hand_state \<Rightarrow> ((hand_state \<times> hand_state) \<times> HandData) option" where
  "detect res states =
     do {
       (s0, h0) \<leftarrow> detect_slot res 0 (fst states);
       (s1, h1) \<leftarrow> detect_slot res 1 (snd states);
       Some ((s0, s1), (h0, h1))
     }"

text \<open>
  A run of detection ticks. The second component is the content of \<open>handDataRef\<close>,
  which \<open>App\<close> initialises and \<open>onHandUpdate\<close> overwrites.
\<close>

fun run_detect ::
  "(hand_state \<times> hand_state) \<times> HandData \<Rightarrow> results list \<Rightarrow> ((hand_state \<times> hand_state) \<times> HandData) option" where
  "run_detect sd [] = Some sd"
| "run_detect sd (r # rs) = do { sd' \<leftarrow> detect r (fst sd); run_detect sd' rs }"

definition initial_detect :: "(hand_state \<times> hand_state) \<times> HandData" where
  "initial_detect =
     ((initial_hand_state, initial_hand_state), (initial_hand_point, initial_hand_point))"

subsection \<open>\<open>HandPhysics\<close>\<close>

record HandPhysics =
  anchorPoint :: vec2
  currentStretch :: vec2
  velocity :: vec2
  isDragging :: bool

definition new_HandPhysics :: HandPhysics where
  "new_HandPhysics =
     \<lparr>anchorPoint = (0.5, 0.5), currentStretch = (0, 0), velocity = (0, 0), isDragging = False\<rparr>"

definition update :: "HandPoint \<Rightarrow> GestureType \<Rightarrow> FluidParams \<Rightarrow> real \<Rightarrow> HandPhysics \<Rightarrow> HandPhysics" where
  "update handPos gesture' params dt this =
     (let targetPos = (px handPos, 1 - py handPos)
      in if gesture' = PINCH then
           (if \<not> isDragging this
            then this\<lparr>isDragging := True, anchorPoint := targetPos,
                      velocity := (0, 0), currentStretch := (0, 0)\<rparr>
            else this\<lparr>currentStretch := vsub targetPos (anchorPoint this)\<rparr>)
         else
           (let springK = 10;
                damping = 5 * (1.05 - reboundElasticity params);
                force = vscale (currentStretch this) (- springK);
                dampingForce = vscale (velocity this) (- damping);
                acceleration = vadd force dampingForce;
                velocity' = vadd (velocity this) (vscale acceleration dt);
                currentStretch' = vadd (currentStretch this) (vscale velocity' dt)
            in if lengthSq currentStretch' < 0.00001 \<and> lengthSq velocity' < 0.0001
               then this\<lparr>isDragging := False, velocity := (0, 0), currentStretch := (0, 0)\<rparr>
               else this\<lparr>isDragging := False, velocity := velocity',
                         currentStretch := currentStretch'\<rparr>))"


subsection \<open>The \<open>useFrame\<close> callback of \<open>FluidScene\<close>\<close>

text \<open>
  The field is a map from texel coordinate to texel. A render target is named by a
  number; \<open>targets\<close> holds the content of each. \<open>fboRead\<close> and \<open>fboWrite\<close> are the
  two refs, \<open>refsReady\<close> stands for \<open>meshRef.current\<close> and
  \<open>smearMaterialRef.current\<close> both being set, \<open>uLastFrame\<close> and \<open>uSmearTexture\<close>
  are the texture uniforms of the smear pass and of the composite pass.
\<close>

type_synonym field = "vec2 \<Rightarrow> cell"

record scene =
  physicsRefs :: "HandPhysics \<times> HandPhysics"
  refsReady :: bool
  fboRead :: "nat option"
  fboWrite :: "nat option"
  targets :: "nat \<Rightarrow> field"
  smearUniforms :: smear_uniforms
  uLastFrame :: "nat option"
  uSmearTexture :: "nat option"

text \<open>
  \<open>gl.render(smearScene, smearCamera)\<close>: the shader at every texel of the target. Both
  targets have the same size and the pass draws one quad over the whole target, so the
  sample \<open>texture2D(uLastFrame, vUv)\<close> is the texel of the sampled target at the same
  coordinate.
\<close>

definition render_smear :: "smear_uniforms \<Rightarrow> field \<Rightarrow> field" where
  "render_smear u lastFrame = (\<lambda>vUv. smearFragmentShader u vUv (lastFrame vUv))"

definition useFrame :: "FluidParams \<Rightarrow> HandData \<Rightarrow> real \<Rightarrow> scene \<Rightarrow> scene" where
  "useFrame params hands delta s =
     (case (refsReady s, fboRead s, fboWrite s) of
        (True, Some rd, Some wr) \<Rightarrow>
          (let dt = min delta 0.1;
               hand0 = fst hands;
               hand1 = snd hands;
               physics0 = update hand0 (gesture hand0) params dt (fst (physicsRefs s));
               physics1 = update hand1 (gesture hand1) params dt (snd (physicsRefs s));
               u = \<lparr>uIndexPos = ((tip_x (indexTip hand0), tip_y (indexTip hand0)),
                                  (tip_x (indexTip hand1), tip_y (indexTip hand1))),
                    uIndexVel = ((tip_vx (indexTip hand0), tip_vy (indexTip hand0)),
                                  (tip_vx (indexTip hand1), tip_vy (indexTip hand1))),
                    uDecay = smearDecayTime params,
                    uRadius = smearRadius params,
                    uIntensity = smearIntensity params\<rparr>;
               written = render_smear u (targets s rd)
           in s\<lparr>physicsRefs := (physics0, physics1),
                smearUniforms := u,
                uLastFrame := Some rd,
                targets := (targets s)(wr := written),
                fboRead := Some wr,
                fboWrite := Some rd,
                uSmearTexture := Some wr\<rparr>)
      | _ \<Rightarrow> s)"

text \<open>
  The scene as the effect hook sets it up: two distinct render targets (numbered 0 and
  1) without data, and the initial uniforms of the smear material.
\<close>

definition initial_scene :: scene where
  "initial_scene =
     \<lparr>physicsRefs = (new_HandPhysics, new_HandPhysics),
      refsReady = True,
      fboRead = Some 0,
      fboWrite = Some 1,
      targets = (\<lambda>_ _. initial_cell),
      smearUniforms = \<lparr>uIndexPos = ((0, 0), (0, 0)), uIndexVel = ((0, 0), (0, 0)),
                        uDecay = 0.01, uRadius = 0.1, uIntensity = 0.5\<rparr>,
      uLastFrame = None,
      uSmearTexture = None\<rparr>"

text \<open>\<open>DEFAULT_PARAMS\<close> of \<open>types.ts\<close>, restricted to the fields of the record.\<close>

definition DEFAULT_PARAMS :: FluidParams where
  "DEFAULT_PARAMS =
     \<lparr>reboundElasticity = 0.9, smearIntensity = 0.8, smearDecayTime = 0.05, smearRadius = 0.15\<rparr>"

subsection \<open>The gesture rule as the specification words it\<close>

text \<open>
  These definitions follow the specification's description of gesture resolution, not
  the code; the classifier above is compared with them. Landmark indices are those of
  the hand model: 0 wrist, 4 thumb tip, 8 index tip, 5, 9 and 17 the bases of index,
  middle and little finger, and \<open>(tip, mid-joint)\<close> pairs for the five fingers.
\<close>

definition euclid :: "landmark \<Rightarrow> landmark \<Rightarrow> real" where
  "euclid p q = sqrt ((lx p - lx q)\<^sup>2 + (ly p - ly q)\<^sup>2)"

definition spec_pinch :: "landmark list \<Rightarrow> bool" where
  "spec_pinch lms \<longleftrightarrow> euclid (lms ! 4) (lms ! 8) < 0.05"

definition spec_extended :: "landmark list \<Rightarrow> nat \<times> nat \<Rightarrow> bool" where
  "spec_extended lms f \<longleftrightarrow>
     euclid (lms ! fst f) (lms ! 0) > euclid (lms ! snd f) (lms ! 0) * 1.1"

definition spec_extended_count :: "landmark list \<Rightarrow> nat" where
  "spec_extended_count lms =
     length (filter (spec_extended lms) [(4, 2), (8, 6), (12, 10), (16, 14), (20, 18)])"

definition spec_cross :: "landmark list \<Rightarrow> real" where
  "spec_cross lms =
     (lx (lms ! 5) - lx (lms ! 0)) * (ly (lms ! 17) - ly (lms ! 0))
     - (ly (lms ! 5) - ly (lms ! 0)) * (lx (lms ! 17) - lx (lms ! 0))"

definition spec_back_facing :: "string \<Rightarrow> landmark list \<Rightarrow> bool" where
  "spec_back_facing label lms \<longleftrightarrow>
     (if label = ''Left'' then spec_cross lms < - 0.002 else spec_cross lms > 0.002)"

definition spec_palm :: "string \<Rightarrow> landmark list \<Rightarrow> bool" where
  "spec_palm label lms \<longleftrightarrow>
     \<not> spec_pinch lms \<and> 5 \<le> spec_extended_count lms \<and> spec_back_facing label lms"

definition spec_gesture :: "string \<Rightarrow> landmark list \<Rightarrow> GestureType" where
  "spec_gesture label lms =
     (if spec_pinch lms then PINCH else if spec_palm label lms then PALM else NONE)"

subsection \<open>Conditions on the detector's answer\<close>

text \<open>
  Slot \<open>i\<close> of an answer is complete when, if a hand was found for it, the hand has the
  21 landmarks of the hand model and its handedness entry has a category.
\<close>

definition slot_complete :: "results \<Rightarrow> nat \<Rightarrow> bool" where
  "slot_complete res i \<longleftrightarrow>
     (i < foundHandsCount res \<longrightarrow>
        21 \<le> length (the (landmarks res) ! i) \<and>
        i < length (handedness res) \<and> handedness res ! i \<noteq> [])"

definition unit_xy :: "landmark \<Rightarrow> bool" where
  "unit_xy p \<longleftrightarrow> 0 \<le> lx p \<and> lx p \<le> 1 \<and> 0 \<le> ly p \<and> ly p \<le> 1"

text \<open>
  The landmarks that serve as position targets (thumb tip, index tip, middle-finger
  base) of the hands found for the two slots have \<open>x\<close> and \<open>y\<close> in \<open>[0,1]\<close>.
\<close>

definition targets_in_unit_square :: "results \<Rightarrow> bool" where
  "targets_in_unit_square res \<longleftrightarrow>
     (\<forall>i < 2. i < foundHandsCount res \<longrightarrow>
        (\<forall>k \<in> {4, 8, 9}. unit_xy (the (landmarks res) ! i ! k)))"

subsection \<open>Concrete inputs\<close>

text \<open>
  A right hand seen from the back with all five fingers stretched out, wrist at the
  bottom: every fingertip is farther from the wrist than its mid-joint, thumb tip and
  index tip are 0.2 apart.
\<close>

definition pt :: "real \<Rightarrow> real \<Rightarrow> landmark" where
  "pt u v = \<lparr>lx = u, ly = v, lz = 0\<rparr>"

definition open_hand :: "landmark list" where
  "open_hand =
     [pt (1/2) (9/10), pt (1/2) (8/10), pt (1/2) (7/10), pt (1/2) (6/10), pt (1/2) (5/10),
      pt (4/10) (6/10), pt (1/2) (7/10), pt (1/2) (5/10), pt (1/2) (3/10),
      pt (1/2) (6/10), pt (1/2) (7/10), pt (1/2) (5/10), pt (1/2) (3/10),
      pt (1/2) (6/10), pt (1/2) (7/10), pt (1/2) (5/10), pt (1/2) (3/10),
      pt (6/10) (6/10), pt (1/2) (7/10), pt (1/2) (5/10), pt (1/2) (3/10)]"

definition open_hand_results :: results where
  "open_hand_results =
     \<lparr>landmarks = Some [open_hand], handedness = [[\<lparr>categoryName = ''Right''\<rparr>]]\<rparr>"

text \<open>
  The same hand with its last landmark missing, and two fingertips at the centre of
  the field moving in opposite directions at the same speed.
\<close>

definition short_hand_results :: results where
  "short_hand_results =
     \<lparr>landmarks = Some [take 20 open_hand], handedness = [[\<lparr>categoryName = ''Right''\<rparr>]]\<rparr>"

definition opposed_uniforms :: smear_uniforms where
  "opposed_uniforms =
     \<lparr>uIndexPos = ((1/2, 1/2), (1/2, 1/2)), uIndexVel = ((1, 0), (- 1, 0)),
      uDecay = 1/100, uRadius = 1/10, uIntensity = 1/2\<rparr>"

text \<open>
  The open hand moved by 0.6 to the right, so that it reaches over the right edge of
  the image: its thumb tip, index tip and middle-finger base are at \<open>x = 1.1\<close>.
\<close>

definition edge_hand_results :: results where
  "edge_hand_results =
     \<lparr>landmarks = Some [map (\<lambda>p. p\<lparr>lx := lx p + 3/5\<rparr>) open_hand],
      handedness = [[\<lparr>categoryName = ''Right''\<rparr>]]\<rparr>"

text \<open>The open hand moved by 2.5 to the right, far outside the image.\<close>

definition far_hand_results :: results where
  "far_hand_results =
     \<lparr>landmarks = Some [map (\<lambda>p. p\<lparr>lx := lx p + 5/2\<rparr>) open_hand],
      handedness = [[\<lparr>categoryName = ''Right''\<rparr>]]\<rparr>"



subsection \<open>Range invariants of the classifier\<close>

definition in_unit :: "real \<Rightarrow> bool" where
  "in_unit v \<longleftrightarrow> 0 \<le> v \<and> v \<le> 1"

text \<open>
  The smoothed proximities, respectively the smoothed positions, of both slots and the
  corresponding fields of the exported pair lie in \<open>[0,1]\<close>.
\<close>

definition z_inv :: "(hand_state \<times> hand_state) \<times> HandData \<Rightarrow> bool" where
  "z_inv sd \<longleftrightarrow>
     in_unit (smoothedZ (fst (fst sd))) \<and> in_unit (smoothedZ (snd (fst sd))) \<and>
     in_unit (pz (fst (snd sd))) \<and> in_unit (pz (snd (snd sd)))"

definition xy_inv :: "(hand_state \<times> hand_state) \<times> HandData \<Rightarrow> bool" where
  "xy_inv sd \<longleftrightarrow>
     in_unit (fst (smoothedPos (fst (fst sd)))) \<and> in_unit (snd (smoothedPos (fst (fst sd)))) \<and>
     in_unit (fst (smoothedPos (snd (fst sd)))) \<and> in_unit (snd (smoothedPos (snd (fst sd)))) \<and>
     in_unit (px (fst (snd sd))) \<and> in_unit (py (fst (snd sd))) \<and>
     in_unit (px (snd (snd sd))) \<and> in_unit (py (snd (snd sd)))"



subsection \<open>An energy for the spring step\<close>




section \<open>Properties of the smear field\<close>

lemma smoothstep_nonneg: "0 \<le> smoothstep e0 e1 v"
  by (simp add: smoothstep_def clamp_def Let_def)

lemma brush_hand_fst_nonneg:
  "0 \<le> fst acc \<Longrightarrow> 0 \<le> fst (brush_hand u vUv i acc)"
  by (cases acc) (auto simp: brush_hand_def Let_def)

lemma totalBrush_nonneg: "0 \<le> totalBrush_of u vUv"
  by (simp add: totalBrush_of_def brush_loop_def brush_hand_fst_nonneg)

lemma decay_alpha_bounds:
  assumes "cell_ok c" "0 \<le> uDecay u" "uDecay u \<le> 1"
  shows "0 \<le> decay_alpha u c \<and> decay_alpha u c \<le> intensity c"
proof -
  let ?m = "1 + speed c * 2"
  let ?f = "1 - uDecay u / ?m"
  from assms have m: "1 \<le> ?m" and a: "0 \<le> intensity c" by (simp_all add: cell_ok_def)
  from m assms(2,3) have "0 \<le> uDecay u / ?m" "uDecay u / ?m \<le> 1"
    by (simp_all add: field_simps)
  then have f: "0 \<le> ?f" "?f \<le> 1" by simp_all
  from a f have "intensity c * ?f \<le> intensity c * 1" by (intro mult_left_mono) simp_all
  with a f show ?thesis
    by (simp add: decay_alpha_def Let_def)
qed

lemma mix_bounds:
  assumes "0 \<le> p" "p \<le> 1" "0 \<le> q" "q \<le> 1" "0 \<le> t" "t \<le> 1"
  shows "0 \<le> mix p q t \<and> mix p q t \<le> 1"
proof -
  have "p * (1 - t) \<le> 1 * (1 - t)" using assms by (intro mult_right_mono) simp_all
  moreover have "q * t \<le> 1 * t" using assms by (intro mult_right_mono) simp_all
  ultimately show ?thesis using assms by (simp add: mix_def)
qed

text \<open>One pass of the shader keeps intensity and stored speed of a texel in \<open>[0,1]\<close>.\<close>

lemma shader_cell_ok:
  assumes "cell_ok c" "smear_params_ok u"
  shows "cell_ok (smearFragmentShader u vUv c)"
proof -
  obtain tb tv ms where bl: "brush_loop u vUv = (tb, tv, ms)" by (cases "brush_loop u vUv")
  have tb: "0 \<le> tb" using totalBrush_nonneg[of u vUv] bl by (simp add: totalBrush_of_def)
  from assms have d: "0 \<le> decay_alpha u c" "decay_alpha u c \<le> intensity c"
    using decay_alpha_bounds[of c u] by (simp_all add: smear_params_ok_def)
  from assms have c: "0 \<le> intensity c" "intensity c \<le> 1" "0 \<le> speed c" "speed c \<le> 1"
    by (simp_all add: cell_ok_def)
  show ?thesis
  proof (cases "tb > 0")
    case False
    with bl d c show ?thesis by (simp add: smearFragmentShader_def cell_ok_def)
  next
    case True
    have i: "0 \<le> uIntensity u * tb" using assms(2) tb by (simp add: smear_params_ok_def)
    have w: "0 \<le> min 1 (tb * 2.5)" "min 1 (tb * 2.5) \<le> 1" using tb by simp_all
    have e: "0 \<le> clamp ms 0 1" "clamp ms 0 1 \<le> 1" by (simp_all add: clamp_def)
    from mix_bounds[OF c(3,4) e w] True bl d i show ?thesis
      by (simp add: smearFragmentShader_def cell_ok_def Let_def)
  qed
qed

lemma run_cell_ok:
  "cell_ok c \<Longrightarrow> \<forall>u \<in> set us. smear_params_ok u \<Longrightarrow> cell_ok (run_cell vUv c us)"
  by (induction us arbitrary: c) (simp_all add: shader_cell_ok)

lemma initial_cell_ok: "cell_ok initial_cell"
  by (simp add: cell_ok_def initial_cell_def)

text \<open>
  Claim C1. Take any texel coordinate and any sequence of ticks whose decay, radius and
  intensity uniforms lie in the slider ranges, with arbitrary fingertip positions and
  velocities. Starting from the freshly created field, the texel's intensity after the
  last tick, hence after every tick, lies in \<open>[0,1]\<close>.
\<close>

theorem intensity_in_unit_interval:
  assumes "\<forall>u \<in> set us. smear_params_ok u"
  shows "0 \<le> intensity (run_cell vUv initial_cell us) \<and>
         intensity (run_cell vUv initial_cell us) \<le> 1"
  using run_cell_ok[OF initial_cell_ok assms] by (simp add: cell_ok_def)

theorem intensity_in_unit_interval_witness:
  "smear_params_ok \<lparr>uIndexPos = ((1/2, 1/2), (0, 0)), uIndexVel = ((1, 0), (0, 0)),
                    uDecay = 1/100, uRadius = 1/10, uIntensity = 1/2\<rparr> \<and>
   0 \<le> intensity (run_cell (1/2, 1/2) initial_cell
          [\<lparr>uIndexPos = ((1/2, 1/2), (0, 0)), uIndexVel = ((1, 0), (0, 0)),
            uDecay = 1/100, uRadius = 1/10, uIntensity = 1/2\<rparr>]) \<and>
   intensity (run_cell (1/2, 1/2) initial_cell
          [\<lparr>uIndexPos = ((1/2, 1/2), (0, 0)), uIndexVel = ((1, 0), (0, 0)),
            uDecay = 1/100, uRadius = 1/10, uIntensity = 1/2\<rparr>]) \<le> 1"
proof -
  have p: "smear_params_ok \<lparr>uIndexPos = ((1/2, 1/2), (0, 0)), uIndexVel = ((1, 0), (0, 0)),
                    uDecay = 1/100, uRadius = 1/10, uIntensity = 1/2\<rparr>"
    by (simp add: smear_params_ok_def)
  then have h: "\<forall>u \<in> set [\<lparr>uIndexPos = ((1/2, 1/2), (0, 0)), uIndexVel = ((1, 0), (0, 0)),
                  uDecay = 1/100, uRadius = 1/10, uIntensity = 1/2\<rparr>]. smear_params_ok u"
    by simp
  from intensity_in_unit_interval[OF h, of "(1/2, 1/2)"] p show ?thesis by blast
qed

section \<open>Properties of the classifier\<close>

lemma js_index_Some: "i < length xs \<Longrightarrow> js_index xs i = Some (xs ! i)"
  by (simp add: js_index_def)

lemma hypot_euclid: "hypot (lx p - lx q) (ly p - ly q) = euclid p q"
  by (simp add: hypot_def euclid_def power2_eq_square)

lemma count_extended_filter:
  "\<forall>f \<in> set fs. fst f < length lms \<and> snd f < length lms \<Longrightarrow>
   count_extended lms (lms ! 0) fs n = Some (n + length (filter (spec_extended lms) fs))"
  by (induction fs arbitrary: n)
     (simp_all add: js_index_Some hypot_euclid spec_extended_def)

lemma count_extended_fingers:
  assumes "21 \<le> length lms"
  shows "count_extended lms (lms ! 0) fingersIndices 0 = Some (spec_extended_count lms)"
proof -
  have "\<forall>f \<in> set fingersIndices. fst f < length lms \<and> snd f < length lms"
    using assms by (simp add: fingersIndices_def)
  from count_extended_filter[OF this, of 0] show ?thesis
    by (simp add: spec_extended_count_def fingersIndices_def)
qed

lemma detect_found_complete:
  assumes "21 \<le> length lms" "cats \<noteq> []"
  shows "\<exists>state' hp. detect_found state lms (Some cats) = Some (state', hp) \<and>
           s_gesture state' = spec_gesture (categoryName (cats ! 0)) lms \<and>
           gesture hp = s_gesture state'"
proof -
  have idx: "js_index lms 0 = Some (lms ! 0)" "js_index lms 4 = Some (lms ! 4)"
    "js_index lms 8 = Some (lms ! 8)" "js_index lms 9 = Some (lms ! 9)"
    "js_index lms 5 = Some (lms ! 5)" "js_index lms 17 = Some (lms ! 17)"
    using assms(1) by (auto simp: js_index_def)
  have c0: "js_index cats 0 = Some (cats ! 0)" using assms(2) by (simp add: js_index_Some)
  show ?thesis
    by (simp add: detect_found_def idx c0 count_extended_fingers[OF assms(1)] Let_def
        hypot_euclid spec_gesture_def spec_palm_def spec_pinch_def spec_back_facing_def
        spec_cross_def PINCH_THRESHOLD_def PALM_OPEN_FINGER_COUNT_def)
qed

lemma detect_slot_spec:
  assumes "i < foundHandsCount res" and "slot_complete res i"
  shows "\<exists>state' hp.
           detect_slot res i state = Some (state', hp) \<and>
           gesture hp = s_gesture state' \<and>
           s_gesture state' =
             spec_gesture (categoryName (handedness res ! i ! 0)) (the (landmarks res) ! i)"
proof -
  let ?lms = "the (landmarks res) ! i"
  let ?cats = "handedness res ! i"
  from assms have l: "21 \<le> length ?lms" and h: "i < length (handedness res)" "?cats \<noteq> []"
    by (simp_all add: slot_complete_def)
  from detect_found_complete[OF l h(2), of state] obtain state' hp where
    d: "detect_found state ?lms (Some ?cats) = Some (state', hp)"
    and g: "s_gesture state' = spec_gesture (categoryName (?cats ! 0)) ?lms"
           "gesture hp = s_gesture state'" by blast
  have "detect_slot res i state = Some (state', hp)"
    using assms(1) h(1) d by (simp add: detect_slot_def js_index_Some)
  with g show ?thesis by simp
qed

text \<open>
  Claim C3. For a slot with a hand of 21 landmarks and a handedness category, the
  classifier returns, and the gesture it stores and exports is the one the priority rule
  PINCH, then PALM, then NONE gives: PINCH exactly when thumb tip and index tip are
  less than 0.05 apart; PALM exactly when that fails, all five fingers count as
  extended and the orientation test for the hand's label passes; NONE otherwise.
\<close>

theorem gesture_priority:
  assumes "i < foundHandsCount res" and "slot_complete res i"
  shows "\<exists>state' hp.
           detect_slot res i state = Some (state', hp) \<and>
           gesture hp = s_gesture state' \<and>
           s_gesture state' =
             spec_gesture (categoryName (handedness res ! i ! 0)) (the (landmarks res) ! i) \<and>
           (s_gesture state' = PINCH \<longleftrightarrow> spec_pinch (the (landmarks res) ! i)) \<and>
           (s_gesture state' = PALM \<longleftrightarrow>
              spec_palm (categoryName (handedness res ! i ! 0)) (the (landmarks res) ! i)) \<and>
           (s_gesture state' = NONE \<longleftrightarrow>
              \<not> spec_pinch (the (landmarks res) ! i) \<and>
              \<not> spec_palm (categoryName (handedness res ! i ! 0)) (the (landmarks res) ! i))"
proof -
  let ?lms = "the (landmarks res) ! i"
  let ?label = "categoryName (handedness res ! i ! 0)"
  from detect_slot_spec[OF assms, of state] obtain state' hp where
    d: "detect_slot res i state = Some (state', hp)" "gesture hp = s_gesture state'"
       "s_gesture state' = spec_gesture ?label ?lms" by blast
  have "\<not> (spec_pinch ?lms \<and> spec_palm ?label ?lms)"
    by (simp add: spec_palm_def)
  with d show ?thesis
    by (auto simp: spec_gesture_def)
qed

lemma euclid_same_x: "lx p = lx q \<Longrightarrow> euclid p q = \<bar>ly p - ly q\<bar>"
  by (simp add: euclid_def)

lemma open_hand_gesture: "spec_gesture ''Right'' open_hand = PALM"
proof -
  have n: "open_hand ! 0 = pt (1/2) (9/10)" "open_hand ! 2 = pt (1/2) (7/10)"
    "open_hand ! 4 = pt (1/2) (5/10)" "open_hand ! 5 = pt (4/10) (6/10)"
    "open_hand ! 6 = pt (1/2) (7/10)" "open_hand ! 8 = pt (1/2) (3/10)"
    "open_hand ! 10 = pt (1/2) (7/10)" "open_hand ! 12 = pt (1/2) (3/10)"
    "open_hand ! 14 = pt (1/2) (7/10)" "open_hand ! 16 = pt (1/2) (3/10)"
    "open_hand ! 17 = pt (6/10) (6/10)" "open_hand ! 18 = pt (1/2) (7/10)"
    "open_hand ! 20 = pt (1/2) (3/10)"
    by (simp_all add: open_hand_def)
  have e: "euclid (pt (1/2) a) (pt (1/2) b) = \<bar>a - b\<bar>" for a b
    by (simp add: euclid_same_x pt_def)
  have p: "\<not> spec_pinch open_hand" by (simp add: spec_pinch_def n e)
  have c: "spec_extended_count open_hand = 5"
    by (simp add: spec_extended_count_def spec_extended_def n e)
  have b: "spec_back_facing ''Right'' open_hand"
    by (simp add: spec_back_facing_def spec_cross_def n pt_def)
  show ?thesis using p c b by (simp add: spec_gesture_def spec_palm_def)
qed

theorem gesture_priority_witness:
  "0 < foundHandsCount open_hand_results \<and> slot_complete open_hand_results 0 \<and>
   (\<exists>state' hp. detect_slot open_hand_results 0 initial_hand_state = Some (state', hp) \<and>
      gesture hp = PALM \<and> s_gesture state' = PALM)"
proof -
  have h1: "0 < foundHandsCount open_hand_results"
    by (simp add: foundHandsCount_def open_hand_results_def)
  have h2: "slot_complete open_hand_results 0"
    by (simp add: slot_complete_def foundHandsCount_def open_hand_results_def open_hand_def)
  have l: "the (landmarks open_hand_results) ! 0 = open_hand"
    "categoryName (handedness open_hand_results ! 0 ! 0) = ''Right''"
    by (simp_all add: open_hand_results_def)
  from gesture_priority[OF h1 h2, of initial_hand_state] h1 h2 show ?thesis
    unfolding l open_hand_gesture by auto
qed

text \<open>
  Claim C9. On a tick in which no hand is found for a slot, the slot's gesture becomes
  NONE, its proximity moves a tenth of the way to 0, the fingertip velocity becomes
  exactly \<open>(0,0)\<close>, and smoothed position and fingertip position keep their values;
  the slot state has no other field. The exported record repeats these values.
\<close>

theorem lost_hand:
  assumes "\<not> i < foundHandsCount res"
  shows "\<exists>state' hp.
           detect_slot res i state = Some (state', hp) \<and>
           s_gesture state' = NONE \<and>
           smoothedZ state' = smoothedZ state + 0.1 * (0 - smoothedZ state) \<and>
           tip_vx (indexTipState state') = 0 \<and> tip_vy (indexTipState state') = 0 \<and>
           smoothedPos state' = smoothedPos state \<and>
           tip_x (indexTipState state') = tip_x (indexTipState state) \<and>
           tip_y (indexTipState state') = tip_y (indexTipState state) \<and>
           hp = \<lparr>gesture = NONE, px = fst (smoothedPos state), py = snd (smoothedPos state),
                 pz = smoothedZ state', 
                 indexTip = \<lparr>tip_x = tip_x (indexTipState state), tip_y = tip_y (indexTipState state),
                             tip_vx = 0, tip_vy = 0\<rparr>\<rparr>"
  using assms by (simp add: detect_slot_def detect_lost_def Let_def lerp_def)

theorem lost_hand_witness:
  "\<not> 0 < foundHandsCount \<lparr>landmarks = None, handedness = []\<rparr> \<and>
   (\<exists>state' hp.
      detect_slot \<lparr>landmarks = None, handedness = []\<rparr> 0
        \<lparr>s_gesture = PINCH, smoothedPos = (1/4, 3/4), smoothedZ = 1,
         indexTipState = \<lparr>tip_x = 1/8, tip_y = 1/2, tip_vx = 2, tip_vy = 3\<rparr>\<rparr> = Some (state', hp) \<and>
      s_gesture state' = NONE \<and> smoothedZ state' = 9/10 \<and>
      smoothedPos state' = (1/4, 3/4) \<and>
      indexTipState state' = \<lparr>tip_x = 1/8, tip_y = 1/2, tip_vx = 0, tip_vy = 0\<rparr>)"
proof -
  have h: "\<not> 0 < foundHandsCount \<lparr>landmarks = None, handedness = []\<rparr>"
    by (simp add: foundHandsCount_def)
  from lost_hand[OF h, of "\<lparr>s_gesture = PINCH, smoothedPos = (1/4, 3/4), smoothedZ = 1,
         indexTipState = \<lparr>tip_x = 1/8, tip_y = 1/2, tip_vx = 2, tip_vy = 3\<rparr>\<rparr>"] h
  show ?thesis by auto
qed

section \<open>Properties of \<open>HandPhysics\<close>\<close>

text \<open>
  Claim C10. After \<open>update\<close>, \<open>isDragging\<close> holds exactly when the gesture passed was
  PINCH. On a PINCH call that finds \<open>isDragging\<close> set, the anchor stays and the stretch
  is the flipped target position minus the anchor. On a PINCH call that finds it
  unset, in particular on the first PINCH call after a call with another gesture, the
  anchor becomes the target and stretch and velocity are exactly \<open>(0,0)\<close>.
\<close>

theorem drag_state:
  "(isDragging (update hp g params dt this) \<longleftrightarrow> g = PINCH) \<and>
   (g = PINCH \<and> isDragging this \<longrightarrow>
      anchorPoint (update hp g params dt this) = anchorPoint this \<and>
      currentStretch (update hp g params dt this) =
        (px hp - fst (anchorPoint this), (1 - py hp) - snd (anchorPoint this))) \<and>
   (g = PINCH \<and> \<not> isDragging this \<longrightarrow>
      anchorPoint (update hp g params dt this) = (px hp, 1 - py hp) \<and>
      currentStretch (update hp g params dt this) = (0, 0) \<and>
      velocity (update hp g params dt this) = (0, 0)) \<and>
   (g0 \<noteq> PINCH \<longrightarrow>
      anchorPoint (update hp PINCH params dt (update hp0 g0 params dt0 this)) = (px hp, 1 - py hp) \<and>
      currentStretch (update hp PINCH params dt (update hp0 g0 params dt0 this)) = (0, 0) \<and>
      velocity (update hp PINCH params dt (update hp0 g0 params dt0 this)) = (0, 0))"
  by (simp add: update_def Let_def vsub_def)

theorem drag_state_witness:
  "PINCH = PINCH \<and> isDragging (new_HandPhysics\<lparr>isDragging := True\<rparr>) \<and>
   anchorPoint (update \<lparr>gesture = PINCH, px = 3/4, py = 1/4, pz = 0,
                         indexTip = \<lparr>tip_x = 0, tip_y = 0, tip_vx = 0, tip_vy = 0\<rparr>\<rparr>
                  PINCH \<lparr>reboundElasticity = 9/10, smearIntensity = 8/10,
                         smearDecayTime = 1/20, smearRadius = 3/20\<rparr> (1/60)
                  (new_HandPhysics\<lparr>isDragging := True\<rparr>)) = (1/2, 1/2) \<and>
   currentStretch (update \<lparr>gesture = PINCH, px = 3/4, py = 1/4, pz = 0,
                         indexTip = \<lparr>tip_x = 0, tip_y = 0, tip_vx = 0, tip_vy = 0\<rparr>\<rparr>
                  PINCH \<lparr>reboundElasticity = 9/10, smearIntensity = 8/10,
                         smearDecayTime = 1/20, smearRadius = 3/20\<rparr> (1/60)
                  (new_HandPhysics\<lparr>isDragging := True\<rparr>)) = (1/4, 1/4)"
  using drag_state[of "\<lparr>gesture = PINCH, px = 3/4, py = 1/4, pz = 0,
                         indexTip = \<lparr>tip_x = 0, tip_y = 0, tip_vx = 0, tip_vy = 0\<rparr>\<rparr>"
                  PINCH "\<lparr>reboundElasticity = 9/10, smearIntensity = 8/10,
                         smearDecayTime = 1/20, smearRadius = 3/20\<rparr>" "1/60"
                  "new_HandPhysics\<lparr>isDragging := True\<rparr>" PALM]
  by (simp add: new_HandPhysics_def)

lemma update_idle:
  assumes "g \<noteq> PINCH"
  shows "update hp g params dt this =
     (let damping = 5 * (1.05 - reboundElasticity params);
          accx = (- 10) * fst (currentStretch this) + (- damping) * fst (velocity this);
          accy = (- 10) * snd (currentStretch this) + (- damping) * snd (velocity this);
          vx = fst (velocity this) + accx * dt;
          vy = snd (velocity this) + accy * dt;
          sx = fst (currentStretch this) + vx * dt;
          sy = snd (currentStretch this) + vy * dt
      in if sx * sx + sy * sy < 0.00001 \<and> vx * vx + vy * vy < 0.0001
         then this\<lparr>isDragging := False, velocity := (0, 0), currentStretch := (0, 0)\<rparr>
         else this\<lparr>isDragging := False, velocity := (vx, vy), currentStretch := (sx, sy)\<rparr>)"
proof -
  have m: "x * (- k) = (- k) * x" for x k :: real by simp
  show ?thesis using assms
    unfolding update_def Let_def vadd_def vscale_def lengthSq_def fst_conv snd_conv m
    by simp
qed

lemma useFrame_physics:
  assumes "refsReady s" "fboRead s \<noteq> None" "fboWrite s \<noteq> None"
  shows "physicsRefs (useFrame params hands delta s) =
              (update (fst hands) (gesture (fst hands)) params (min delta 0.1) (fst (physicsRefs s)),
               update (snd hands) (gesture (snd hands)) params (min delta 0.1) (snd (physicsRefs s)))"
  using assms by (auto simp: useFrame_def Let_def)

text \<open>
  Claim C4. On a call with a gesture other than PINCH, \<open>update\<close> makes one
  semi-implicit Euler step of a damped spring: the acceleration is \<open>-10\<close> times the
  stretch plus \<open>-damping\<close> times the velocity with
  \<open>damping = 5 * (1.05 - reboundElasticity)\<close>, the velocity is advanced first and the
  stretch is advanced with the new velocity (the result is then snapped to zero below
  the two thresholds). The frame callback passes \<open>min delta 0.1\<close> as \<open>dt\<close>, which is
  at most 0.1.
\<close>

theorem idle_step:
  assumes "g \<noteq> PINCH"
  shows "update hp g params dt this =
          (let damping = 5 * (1.05 - reboundElasticity params);
               accx = (- 10) * fst (currentStretch this) + (- damping) * fst (velocity this);
               accy = (- 10) * snd (currentStretch this) + (- damping) * snd (velocity this);
               vx = fst (velocity this) + accx * dt;
               vy = snd (velocity this) + accy * dt;
               sx = fst (currentStretch this) + vx * dt;
               sy = snd (currentStretch this) + vy * dt
           in if sx * sx + sy * sy < 0.00001 \<and> vx * vx + vy * vy < 0.0001
              then this\<lparr>isDragging := False, velocity := (0, 0), currentStretch := (0, 0)\<rparr>
              else this\<lparr>isDragging := False, velocity := (vx, vy), currentStretch := (sx, sy)\<rparr>) \<and>
         (refsReady s \<and> fboRead s \<noteq> None \<and> fboWrite s \<noteq> None \<longrightarrow>
            physicsRefs (useFrame params hands delta s) =
              (update (fst hands) (gesture (fst hands)) params (min delta 0.1) (fst (physicsRefs s)),
               update (snd hands) (gesture (snd hands)) params (min delta 0.1) (snd (physicsRefs s))) \<and>
            min delta 0.1 \<le> (0.1 :: real))"
proof (intro conjI impI)
  show "min delta 0.1 \<le> (0.1 :: real)" by (rule min.cobounded2)
qed (use update_idle[OF assms] useFrame_physics in blast)+


theorem idle_step_witness:
  "NONE \<noteq> PINCH \<and>
   update initial_hand_point NONE DEFAULT_PARAMS (1/10)
     \<lparr>anchorPoint = (1/2, 1/2), currentStretch = (1, 0), velocity = (0, 0), isDragging = True\<rparr>
   = \<lparr>anchorPoint = (1/2, 1/2), currentStretch = (9/10, 0), velocity = (- 1, 0), isDragging = False\<rparr> \<and>
   refsReady initial_scene \<and> fboRead initial_scene \<noteq> None \<and> fboWrite initial_scene \<noteq> None \<and>
   physicsRefs (useFrame DEFAULT_PARAMS (initial_hand_point, initial_hand_point) 5 initial_scene) =
     (update initial_hand_point NONE DEFAULT_PARAMS (min 5 0.1) new_HandPhysics,
      update initial_hand_point NONE DEFAULT_PARAMS (min 5 0.1) new_HandPhysics)"
proof -
  have h: "NONE \<noteq> PINCH" by simp
  have r: "refsReady initial_scene \<and> fboRead initial_scene \<noteq> None \<and> fboWrite initial_scene \<noteq> None"
    by (simp add: initial_scene_def)
  have g: "gesture initial_hand_point = NONE" "physicsRefs initial_scene = (new_HandPhysics, new_HandPhysics)"
    by (simp_all add: initial_hand_point_def initial_scene_def)
  from idle_step[OF h, where hp = initial_hand_point and params = DEFAULT_PARAMS and dt = "1/10"
      and this = "\<lparr>anchorPoint = (1/2, 1/2), currentStretch = (1, 0), velocity = (0, 0), isDragging = True\<rparr>"
      and s = initial_scene and hands = "(initial_hand_point, initial_hand_point)" and delta = 5] r g
  show ?thesis by (simp add: DEFAULT_PARAMS_def Let_def)
qed

section \<open>Properties of the frame callback\<close>

lemma useFrame_ready:
  assumes "refsReady s" "fboRead s = Some rd" "fboWrite s = Some wr"
  shows "uLastFrame (useFrame params hands delta s) = Some rd"
    "targets (useFrame params hands delta s) =
       (targets s)(wr := render_smear (smearUniforms (useFrame params hands delta s)) (targets s rd))"
    "fboRead (useFrame params hands delta s) = Some wr"
    "fboWrite (useFrame params hands delta s) = Some rd"
    "uSmearTexture (useFrame params hands delta s) = Some wr"
    "refsReady (useFrame params hands delta s)"
  using assms by (simp_all add: useFrame_def Let_def)

text \<open>
  Claim C6. In a frame with both targets present and distinct, the smear pass samples
  only the target that \<open>fboRead\<close> named before the frame and writes only the other one;
  after the swap the two refs are again distinct, the target just written is the one
  bound for the composite pass of this frame, and it is the one the smear pass of the
  next frame samples.
\<close>

theorem ping_pong:
  assumes "refsReady s" "fboRead s = Some rd" "fboWrite s = Some wr" "rd \<noteq> wr"
  shows "(let s' = useFrame params hands delta s;
              s'' = useFrame params2 hands2 delta2 s'
          in uLastFrame s' = Some rd \<and>
             targets s' wr = render_smear (smearUniforms s') (targets s rd) \<and>
             (\<forall>k. k \<noteq> wr \<longrightarrow> targets s' k = targets s k) \<and>
             fboRead s' = Some wr \<and> fboWrite s' = Some rd \<and> fboRead s' \<noteq> fboWrite s' \<and>
             uSmearTexture s' = Some wr \<and>
             uLastFrame s'' = Some wr \<and>
             targets s'' rd = render_smear (smearUniforms s'') (targets s' wr))"
proof -
  let ?s' = "useFrame params hands delta s"
  note a = useFrame_ready[OF assms(1-3), of params hands delta]
  note b = useFrame_ready[OF a(6) a(3) a(4), of params2 hands2 delta2]
  show ?thesis
    unfolding Let_def using a(1-5) b(1,2) assms(4) by simp
qed


theorem ping_pong_witness:
  "refsReady initial_scene \<and> fboRead initial_scene = Some 0 \<and> fboWrite initial_scene = Some 1 \<and>
   (0::nat) \<noteq> 1 \<and>
   fboRead (useFrame DEFAULT_PARAMS (initial_hand_point, initial_hand_point) (1/60) initial_scene) = Some 1 \<and>
   fboWrite (useFrame DEFAULT_PARAMS (initial_hand_point, initial_hand_point) (1/60) initial_scene) = Some 0 \<and>
   uSmearTexture (useFrame DEFAULT_PARAMS (initial_hand_point, initial_hand_point) (1/60) initial_scene) = Some 1 \<and>
   uLastFrame (useFrame DEFAULT_PARAMS (initial_hand_point, initial_hand_point) (1/60)
     (useFrame DEFAULT_PARAMS (initial_hand_point, initial_hand_point) (1/60) initial_scene)) = Some 1"
proof -
  have h: "refsReady initial_scene" "fboRead initial_scene = Some 0" "fboWrite initial_scene = Some 1"
    "(0::nat) \<noteq> 1"
    by (simp_all add: initial_scene_def)
  from ping_pong[OF h, of DEFAULT_PARAMS "(initial_hand_point, initial_hand_point)" "1/60"
      DEFAULT_PARAMS "(initial_hand_point, initial_hand_point)" "1/60"] h
  show ?thesis unfolding Let_def by blast
qed

section \<open>Failure behaviour\<close>

lemma brush_hand_totalVel:
  assumes "fst (snd acc) \<noteq> None"
  shows "fst (snd (brush_hand u vUv i acc)) \<noteq> None"
proof -
  obtain tb tv ms where acc: "acc = (tb, Some tv, ms)" using assms by (cases acc) auto
  have n: "\<exists>d. normalize v = Some d" if "0.02 < vlength v" for v
    using that by (simp add: normalize_def)
  show ?thesis
  proof (cases "0.02 < vlength (at2 (uIndexVel u) i)")
    case True
    from n[OF True] obtain d where "normalize (at2 (uIndexVel u) i) = Some d" by blast
    then show ?thesis by (simp add: acc brush_hand_def Let_def)
  next
    case False
    then show ?thesis by (simp add: acc brush_hand_def Let_def)
  qed
qed

lemma brush_loop_totalVel: "fst (snd (brush_loop u vUv)) \<noteq> None"
  by (simp add: brush_loop_def brush_hand_totalVel)

lemma detect_slot_complete:
  assumes "slot_complete res i"
  shows "detect_slot res i state \<noteq> None"
proof (cases "i < foundHandsCount res")
  case True
  from detect_slot_spec[OF True assms, of state] show ?thesis by auto
next
  case False
  then show ?thesis by (simp add: detect_slot_def)
qed

lemma detect_complete:
  assumes "slot_complete res 0" "slot_complete res 1"
  shows "detect res states \<noteq> None"
proof -
  from detect_slot_complete[OF assms(1), of "fst states"]
  obtain a where a: "detect_slot res 0 (fst states) = Some a" by auto
  from detect_slot_complete[OF assms(2), of "snd states"]
  obtain b where b: "detect_slot res 1 (snd states) = Some b" by auto
  show ?thesis using a b by (cases a; cases b) (simp add: detect_def)
qed

lemma short_hand_raises:
  "detect short_hand_results (initial_hand_state, initial_hand_state) = None"
proof -
  have "js_index (take 20 open_hand) 20 = None"
    by (simp add: js_index_def open_hand_def)
  then have "count_extended (take 20 open_hand) w fingersIndices 0 = None" for w
    by (simp add: fingersIndices_def)
  then have "detect_found st (take 20 open_hand) c = None" for st c
    by (simp add: detect_found_def Option.bind_eq_None_conv)
  then show ?thesis
    by (simp add: detect_def detect_slot_def foundHandsCount_def short_hand_results_def)
qed

lemma opposed_brush:
  "brush_loop opposed_uniforms (1/2, 1/2) = (2, Some (0, 0), 1)"
proof -
  have v: "vlength (1, 0) = 1" "vlength (- 1, 0) = 1" "vlength (0, 0) = 0"
    by (simp_all add: vlength_def lengthSq_def)
  have n: "normalize (1, 0) = Some (1, 0)" "normalize (- 1, 0) = Some (- 1, 0)"
    by (simp_all add: normalize_def v vscale_def)
  have d: "distance (1/2, 1/2) (1/2, 1/2) = 0"
    by (simp add: distance_def vsub_def v)
  have s: "smoothstep (1/10) (1/25) 0 = 1"
    by (simp add: smoothstep_def clamp_def)
  have h0: "brush_hand opposed_uniforms (1/2, 1/2) 0 (0, Some (0, 0), 0) = (1, Some (1, 0), 1)"
    unfolding brush_hand_def opposed_uniforms_def
    by (simp add: at2_def d v n s vadd_def vscale_def Let_def)
  have h1: "brush_hand opposed_uniforms (1/2, 1/2) 1 (1, Some (1, 0), 1) = (2, Some (0, 0), 1)"
    unfolding brush_hand_def opposed_uniforms_def
    by (simp add: at2_def d v n s vadd_def vscale_def Let_def)
  show ?thesis unfolding brush_loop_def h0 h1 ..
qed

lemma opposed_direction:
  "direction (smearFragmentShader opposed_uniforms (1/2, 1/2) initial_cell) = None"
proof -
  have "normalize (0, 0) = None" by (simp add: normalize_def vlength_def lengthSq_def)
  then show ?thesis
    by (simp add: smearFragmentShader_def opposed_brush initial_cell_def)
qed

text \<open>
  Claim C7, as stated, fails twice. A hand with 20 landmarks makes the classifier read
  a property of \<open>undefined\<close>, so the tick throws instead of reporting NONE. And at a
  texel brushed by two fingertips with opposite velocities the summed direction is the
  zero vector, which the shader normalizes under the guard \<open>totalBrush > 0\<close> only,
  leaving the texel's direction undefined.
\<close>

theorem never_raises_counterexample:
  "detect short_hand_results (initial_hand_state, initial_hand_state) = None \<and>
   direction (smearFragmentShader opposed_uniforms (1/2, 1/2) initial_cell) = None"
  using short_hand_raises opposed_direction by simp

text \<open>
  Claim C7, amended. When every hand found for the two slots has its 21 landmarks and
  a handedness category, the detection tick does not throw. In the field update the
  velocity of a hand is normalized only when its magnitude exceeds 0.02, so the sum of
  the per-hand directions is always defined.
\<close>

theorem never_raises_amended:
  "(slot_complete res 0 \<and> slot_complete res 1 \<longrightarrow> detect res states \<noteq> None) \<and>
   fst (snd (brush_loop u vUv)) \<noteq> None"
  using detect_complete brush_loop_totalVel by blast

theorem never_raises_amended_witness:
  "slot_complete open_hand_results 0 \<and> slot_complete open_hand_results 1 \<and>
   detect open_hand_results (initial_hand_state, initial_hand_state) \<noteq> None"
proof -
  have h: "slot_complete open_hand_results 0 \<and> slot_complete open_hand_results 1"
    by (simp add: slot_complete_def foundHandsCount_def open_hand_results_def open_hand_def)
  from never_raises_amended[of open_hand_results "(initial_hand_state, initial_hand_state)"] h
  show ?thesis by blast
qed

section \<open>Ranges of the exported hand records\<close>

lemma lerp_unit:
  assumes "in_unit p" "in_unit q" "0 \<le> t" "t \<le> 1"
  shows "in_unit (lerp p q t)"
proof -
  have "(1 - t) * p \<le> (1 - t) * 1" using assms by (intro mult_left_mono) (simp_all add: in_unit_def)
  moreover have "t * q \<le> t * 1" using assms by (intro mult_left_mono) (simp_all add: in_unit_def)
  ultimately show ?thesis using assms by (simp add: lerp_def in_unit_def)
qed

lemma count_extended_short:
  assumes "length lms \<le> 20"
  shows "count_extended lms w fingersIndices n = None"
proof -
  have "js_index lms 20 = None" using assms by (simp add: js_index_def)
  then show ?thesis
    by (simp add: fingersIndices_def Option.bind_eq_None_conv)
qed

lemma detect_found_SomeD:
  assumes "detect_found state lms c = Some r"
  shows "21 \<le> length lms \<and> (\<exists>cats. c = Some cats \<and> cats \<noteq> [])"
proof -
  have "21 \<le> length lms"
  proof (rule ccontr)
    assume "\<not> 21 \<le> length lms"
    then have "count_extended lms w fingersIndices 0 = None" for w
      by (simp add: count_extended_short)
    then have "detect_found state lms c = None"
      by (simp add: detect_found_def Option.bind_eq_None_conv)
    with assms show False by simp
  qed
  moreover have "\<exists>cats. c = Some cats \<and> cats \<noteq> []"
  proof (cases c)
    case None
    with assms show ?thesis by (simp add: detect_found_def)
  next
    case (Some cats)
    with assms show ?thesis by (cases cats) (simp_all add: detect_found_def js_index_def)
  qed
  ultimately show ?thesis by simp
qed

lemma detect_found_fields:
  assumes "21 \<le> length lms" "cats \<noteq> []"
  shows "\<exists>state' hp. detect_found state lms (Some cats) = Some (state', hp) \<and>
           smoothedZ state' =
             lerp (smoothedZ state) (max 0 (min 1 ((euclid (lms ! 0) (lms ! 9) - 0.05) / 0.2))) 0.1 \<and>
           smoothedPos state' =
             (lerp (fst (smoothedPos state))
                (if spec_pinch lms then (lx (lms ! 4) + lx (lms ! 8)) / 2 else lx (lms ! 9)) 0.25,
              lerp (snd (smoothedPos state))
                (if spec_pinch lms then (ly (lms ! 4) + ly (lms ! 8)) / 2 else ly (lms ! 9)) 0.25) \<and>
           px hp = fst (smoothedPos state') \<and> py hp = snd (smoothedPos state') \<and>
           pz hp = smoothedZ state'"
proof -
  have idx: "js_index lms 0 = Some (lms ! 0)" "js_index lms 4 = Some (lms ! 4)"
    "js_index lms 8 = Some (lms ! 8)" "js_index lms 9 = Some (lms ! 9)"
    "js_index lms 5 = Some (lms ! 5)" "js_index lms 17 = Some (lms ! 17)"
    using assms(1) by (auto simp: js_index_def)
  have c0: "js_index cats 0 = Some (cats ! 0)" using assms(2) by (simp add: js_index_Some)
  show ?thesis
    by (simp add: detect_found_def idx c0 count_extended_fingers[OF assms(1)] Let_def
        hypot_euclid spec_pinch_def euclid_def PINCH_THRESHOLD_def SMOOTHING_FACTOR_def)
qed


lemma detect_slot_z:
  assumes "detect_slot res i state = Some (state', hp)" "in_unit (smoothedZ state)"
  shows "in_unit (smoothedZ state') \<and> pz hp = smoothedZ state'"
proof (cases "i < foundHandsCount res")
  case True
  with assms(1) have d: "detect_found state (the (landmarks res) ! i) (js_index (handedness res) i)
      = Some (state', hp)" by (simp add: detect_slot_def)
  from detect_found_SomeD[OF d] obtain cats where
    c: "21 \<le> length (the (landmarks res) ! i)" "js_index (handedness res) i = Some cats" "cats \<noteq> []"
    by blast
  from detect_found_fields[OF c(1,3), of state] d c(2)
  have z: "smoothedZ state' = lerp (smoothedZ state)
      (max 0 (min 1 ((euclid (the (landmarks res) ! i ! 0) (the (landmarks res) ! i ! 9) - 0.05) / 0.2))) 0.1"
    and p: "pz hp = smoothedZ state'" by auto
  have "in_unit (max 0 (min 1 v))" for v :: real by (simp add: in_unit_def)
  from lerp_unit[OF assms(2) this, of "0.1"] z p show ?thesis by simp
next
  case False
  with assms(1) have "(state', hp) = detect_lost state" by (simp add: detect_slot_def)
  then have "smoothedZ state' = lerp (smoothedZ state) 0 0.1" "pz hp = smoothedZ state'"
    by (simp_all add: detect_lost_def Let_def)
  moreover have "in_unit 0" by (simp add: in_unit_def)
  ultimately show ?thesis using lerp_unit[OF assms(2), of 0 "0.1"] by simp
qed

lemma detect_slot_xy:
  assumes "detect_slot res i state = Some (state', hp)"
    and "in_unit (fst (smoothedPos state))" "in_unit (snd (smoothedPos state))"
    and "i < foundHandsCount res \<longrightarrow> (\<forall>k \<in> {4, 8, 9}. unit_xy (the (landmarks res) ! i ! k))"
  shows "in_unit (fst (smoothedPos state')) \<and> in_unit (snd (smoothedPos state')) \<and>
         px hp = fst (smoothedPos state') \<and> py hp = snd (smoothedPos state')"
proof (cases "i < foundHandsCount res")
  case True
  let ?lms = "the (landmarks res) ! i"
  from True assms(1) have d: "detect_found state ?lms (js_index (handedness res) i)
      = Some (state', hp)" by (simp add: detect_slot_def)
  from detect_found_SomeD[OF d] obtain cats where
    c: "21 \<le> length ?lms" "js_index (handedness res) i = Some cats" "cats \<noteq> []"
    by blast
  let ?tx = "if spec_pinch ?lms then (lx (?lms ! 4) + lx (?lms ! 8)) / 2 else lx (?lms ! 9)"
  let ?ty = "if spec_pinch ?lms then (ly (?lms ! 4) + ly (?lms ! 8)) / 2 else ly (?lms ! 9)"
  from detect_found_fields[OF c(1,3), of state] d c(2)
  have f: "smoothedPos state' =
      (lerp (fst (smoothedPos state)) ?tx 0.25, lerp (snd (smoothedPos state)) ?ty 0.25)"
    "px hp = fst (smoothedPos state')" "py hp = snd (smoothedPos state')" by auto
  from True assms(4) have u: "unit_xy (?lms ! 4)" "unit_xy (?lms ! 8)" "unit_xy (?lms ! 9)"
    by simp_all
  then have t: "in_unit ?tx" "in_unit ?ty" by (auto simp: unit_xy_def in_unit_def)
  from lerp_unit[OF assms(2) t(1), of "0.25"] lerp_unit[OF assms(3) t(2), of "0.25"] f
  show ?thesis by simp
next
  case False
  with assms(1) have "(state', hp) = detect_lost state" by (simp add: detect_slot_def)
  then have "smoothedPos state' = smoothedPos state" "px hp = fst (smoothedPos state')"
     "py hp = snd (smoothedPos state')"
    by (simp_all add: detect_lost_def Let_def)
  with assms(2,3) show ?thesis by simp
qed


lemma detect_SomeD:
  assumes "detect res states = Some (states', hdata)"
  shows "detect_slot res 0 (fst states) = Some (fst states', fst hdata) \<and>
         detect_slot res 1 (snd states) = Some (snd states', snd hdata)"
  using assms
  by (auto simp: detect_def Option.bind_eq_Some_conv split: prod.splits)

lemma detect_z_inv:
  assumes "detect res (fst sd) = Some sd'" "z_inv sd"
  shows "z_inv sd'"
proof -
  obtain states' hdata where sd': "sd' = (states', hdata)" by (cases sd')
  from detect_SomeD[OF assms(1)[unfolded sd']]
  have a: "detect_slot res 0 (fst (fst sd)) = Some (fst states', fst hdata)"
    and b: "detect_slot res 1 (snd (fst sd)) = Some (snd states', snd hdata)" by simp_all
  from assms(2) have z: "in_unit (smoothedZ (fst (fst sd)))" "in_unit (smoothedZ (snd (fst sd)))"
    by (simp_all add: z_inv_def)
  from detect_slot_z[OF a z(1)] detect_slot_z[OF b z(2)] show ?thesis
    by (simp add: z_inv_def sd')
qed

lemma detect_xy_inv:
  assumes "detect res (fst sd) = Some sd'" "xy_inv sd" "targets_in_unit_square res"
  shows "xy_inv sd'"
proof -
  obtain states' hdata where sd': "sd' = (states', hdata)" by (cases sd')
  from detect_SomeD[OF assms(1)[unfolded sd']]
  have a: "detect_slot res 0 (fst (fst sd)) = Some (fst states', fst hdata)"
    and b: "detect_slot res 1 (snd (fst sd)) = Some (snd states', snd hdata)" by simp_all
  from assms(2) have p: "in_unit (fst (smoothedPos (fst (fst sd))))"
    "in_unit (snd (smoothedPos (fst (fst sd))))"
    "in_unit (fst (smoothedPos (snd (fst sd))))" "in_unit (snd (smoothedPos (snd (fst sd))))"
    by (simp_all add: xy_inv_def)
  from assms(3) have t:
    "0 < foundHandsCount res \<longrightarrow> (\<forall>k \<in> {4, 8, 9}. unit_xy (the (landmarks res) ! 0 ! k))"
    "1 < foundHandsCount res \<longrightarrow> (\<forall>k \<in> {4, 8, 9}. unit_xy (the (landmarks res) ! 1 ! k))"
    unfolding targets_in_unit_square_def by (metis zero_less_numeral, metis one_less_numeral_iff semiring_norm(76))
  from detect_slot_xy[OF a p(1,2) t(1)] detect_slot_xy[OF b p(3,4) t(2)] show ?thesis
    by (simp add: xy_inv_def sd')
qed

lemma run_detect_z_inv:
  "run_detect sd rs = Some sd' \<Longrightarrow> z_inv sd \<Longrightarrow> z_inv sd'"
proof (induction rs arbitrary: sd)
  case Nil
  then show ?case by simp
next
  case (Cons r rs)
  from Cons.prems(1) obtain sd1 where s: "detect r (fst sd) = Some sd1" "run_detect sd1 rs = Some sd'"
    by (auto simp: Option.bind_eq_Some_conv)
  from Cons.IH[OF s(2) detect_z_inv[OF s(1) Cons.prems(2)]] show ?case .
qed

lemma run_detect_xy_inv:
  "run_detect sd rs = Some sd' \<Longrightarrow> xy_inv sd \<Longrightarrow> \<forall>r \<in> set rs. targets_in_unit_square r \<Longrightarrow> xy_inv sd'"
proof (induction rs arbitrary: sd)
  case Nil
  then show ?case by simp
next
  case (Cons r rs)
  from Cons.prems(1) obtain sd1 where s: "detect r (fst sd) = Some sd1" "run_detect sd1 rs = Some sd'"
    by (auto simp: Option.bind_eq_Some_conv)
  from Cons.prems(3) have t: "targets_in_unit_square r" "\<forall>r \<in> set rs. targets_in_unit_square r"
    by simp_all
  from Cons.IH[OF s(2) detect_xy_inv[OF s(1) Cons.prems(2) t(1)] t(2)] show ?case .
qed

lemma initial_inv: "z_inv initial_detect" "xy_inv initial_detect"
  by (simp_all add: z_inv_def xy_inv_def initial_detect_def initial_hand_state_def
      initial_hand_point_def in_unit_def)

lemma lost_slot_one:
  "foundHandsCount res \<le> 1 \<Longrightarrow> detect_slot res 1 st = Some (detect_lost st)"
  by (simp add: detect_slot_def)

text \<open>
  What the classifier does keep: the exported \<open>z\<close> always lies in \<open>[0,1]\<close>, because
  its target is clamped, and the exported \<open>x\<close> and \<open>y\<close> do so as long as the landmarks
  they follow do.
\<close>

lemma exported_ranges:
  assumes "run_detect initial_detect rs = Some (states, hdata)"
  shows "(0 \<le> pz (fst hdata) \<and> pz (fst hdata) \<le> 1 \<and> 0 \<le> pz (snd hdata) \<and> pz (snd hdata) \<le> 1) \<and>
         ((\<forall>r \<in> set rs. targets_in_unit_square r) \<longrightarrow>
            0 \<le> px (fst hdata) \<and> px (fst hdata) \<le> 1 \<and> 0 \<le> py (fst hdata) \<and> py (fst hdata) \<le> 1 \<and>
            0 \<le> px (snd hdata) \<and> px (snd hdata) \<le> 1 \<and> 0 \<le> py (snd hdata) \<and> py (snd hdata) \<le> 1)"
proof (intro conjI impI)
  assume t: "\<forall>r \<in> set rs. targets_in_unit_square r"
  from run_detect_xy_inv[OF assms initial_inv(2) t]
  show "0 \<le> px (fst hdata)" "px (fst hdata) \<le> 1" "0 \<le> py (fst hdata)" "py (fst hdata) \<le> 1"
       "0 \<le> px (snd hdata)" "px (snd hdata) \<le> 1" "0 \<le> py (snd hdata)" "py (snd hdata) \<le> 1"
    by (simp_all add: xy_inv_def in_unit_def)
next
  from run_detect_z_inv[OF assms initial_inv(1)]
  show "0 \<le> pz (fst hdata)" "pz (fst hdata) \<le> 1" "0 \<le> pz (snd hdata)" "pz (snd hdata) \<le> 1"
    by (simp_all add: z_inv_def in_unit_def)
qed

lemma edge_hand_tick:
  "\<exists>sd'. detect edge_hand_results (fst sd) = Some sd' \<and>
      fst (smoothedPos (fst (fst sd'))) = lerp (fst (smoothedPos (fst (fst sd)))) (11/10) (1/4) \<and>
      px (fst (snd sd')) = fst (smoothedPos (fst (fst sd')))"
proof -
  let ?lms = "map (\<lambda>p. p\<lparr>lx := lx p + 3/5\<rparr>) open_hand"
  have l: "21 \<le> length ?lms" by (simp add: open_hand_def)
  have x: "lx (?lms ! 4) = 11/10" "lx (?lms ! 8) = 11/10" "lx (?lms ! 9) = 11/10"
    by (simp_all add: open_hand_def pt_def)
  from detect_found_fields[OF l, of "[\<lparr>categoryName = ''Right''\<rparr>]" "fst (fst sd)"]
  obtain state' hp where
    d: "detect_found (fst (fst sd)) ?lms (Some [\<lparr>categoryName = ''Right''\<rparr>]) = Some (state', hp)"
    and p: "fst (smoothedPos state') = lerp (fst (smoothedPos (fst (fst sd)))) (11/10) (1/4)"
           "px hp = fst (smoothedPos state')"
    by (auto simp: x)
  have s0: "detect_slot edge_hand_results 0 (fst (fst sd)) = Some (state', hp)"
    using d by (simp add: detect_slot_def edge_hand_results_def foundHandsCount_def js_index_def)
  have s1: "detect_slot edge_hand_results 1 (snd (fst sd)) = Some (detect_lost (snd (fst sd)))"
    by (rule lost_slot_one) (simp add: edge_hand_results_def foundHandsCount_def)
  obtain s1' h1 where dl: "detect_lost (snd (fst sd)) = (s1', h1)"
    by (cases "detect_lost (snd (fst sd))")
  have "detect edge_hand_results (fst sd) = Some ((state', s1'), (hp, h1))"
    unfolding detect_def s0 s1 dl by simp
  with p show ?thesis by simp
qed

lemma lerp_toward: "lerp u (11/10) (1/4) = 11/10 - (11/10 - u) * (3/4)"
  by (simp add: lerp_def algebra_simps)

lemma edge_hand_run:
  "\<exists>sd'. run_detect sd (replicate (Suc n) edge_hand_results) = Some sd' \<and>
      fst (smoothedPos (fst (fst sd')))
        = 11/10 - (11/10 - fst (smoothedPos (fst (fst sd)))) * (3/4) ^ Suc n \<and>
      px (fst (snd sd')) = fst (smoothedPos (fst (fst sd')))"
proof (induction n arbitrary: sd)
  case 0
  from edge_hand_tick[of sd] show ?case unfolding lerp_toward by auto
next
  case (Suc n)
  from edge_hand_tick[of sd] obtain sd1 where
    a: "detect edge_hand_results (fst sd) = Some sd1"
    and b: "fst (smoothedPos (fst (fst sd1))) = lerp (fst (smoothedPos (fst (fst sd)))) (11/10) (1/4)"
    by blast
  from Suc[of sd1] obtain sd' where
    c: "run_detect sd1 (replicate (Suc n) edge_hand_results) = Some sd'"
    and e: "fst (smoothedPos (fst (fst sd')))
        = 11/10 - (11/10 - fst (smoothedPos (fst (fst sd1)))) * (3/4) ^ Suc n"
    and f: "px (fst (snd sd')) = fst (smoothedPos (fst (fst sd')))" by blast
  have "run_detect sd (replicate (Suc (Suc n)) edge_hand_results) = Some sd'"
    using a c by simp
  moreover have "fst (smoothedPos (fst (fst sd')))
        = 11/10 - (11/10 - fst (smoothedPos (fst (fst sd)))) * (3/4) ^ Suc (Suc n)"
    unfolding e b lerp_toward by simp
  ultimately show ?case using f by blast
qed

text \<open>
  Claim C8 says that the exported \<open>x\<close>, \<open>y\<close> and \<open>z\<close> lie in \<open>[0,1]\<close> also for raw
  landmarks outside \<open>[0,1]\<close>, and \<open>HandPoint\<close> declares \<open>x\<close> and \<open>y\<close> as
  \<open>0-1 (Screen UV)\<close>. The code clamps the target of \<open>z\<close> but not the targets of
  \<open>x\<close> and \<open>y\<close>: with the hand held over the right edge of the image, at
  \<open>x = 1.1\<close>, the exported \<open>x\<close> of slot 0 is \<open>83551/81920 > 1\<close> after seven
  ticks, and with the hand at \<open>x = 3\<close> it is \<open>9/8\<close> after one tick.
\<close>

theorem exported_x_exceeds_one:
  "map_option (\<lambda>sd. px (fst (snd sd)))
     (run_detect initial_detect (replicate 7 edge_hand_results)) = Some (83551 / 81920) \<and>
   map_option (\<lambda>sd. px (fst (snd sd)))
     (run_detect initial_detect [far_hand_results]) = Some (9 / 8)"
proof
  have i: "fst (smoothedPos (fst (fst initial_detect))) = 1/2"
    by (simp add: initial_detect_def initial_hand_state_def)
  have r: "replicate 7 edge_hand_results = replicate (Suc 6) edge_hand_results" by simp
  from edge_hand_run[of initial_detect 6] obtain sd' where
    "run_detect initial_detect (replicate (Suc 6) edge_hand_results) = Some sd'"
    "px (fst (snd sd')) = 11/10 - (11/10 - 1/2) * (3/4) ^ Suc 6"
    unfolding i by auto
  then show "map_option (\<lambda>sd. px (fst (snd sd)))
     (run_detect initial_detect (replicate 7 edge_hand_results)) = Some (83551 / 81920)"
    unfolding r by (simp add: power_divide)
next
  let ?lms = "map (\<lambda>p. p\<lparr>lx := lx p + 5/2\<rparr>) open_hand"
  have l: "21 \<le> length ?lms" by (simp add: open_hand_def)
  have x: "lx (?lms ! 4) = 3" "lx (?lms ! 8) = 3" "lx (?lms ! 9) = 3"
    by (simp_all add: open_hand_def pt_def)
  from detect_found_fields[OF l, of "[\<lparr>categoryName = ''Right''\<rparr>]" initial_hand_state]
  obtain state' hp where
    d: "detect_found initial_hand_state ?lms (Some [\<lparr>categoryName = ''Right''\<rparr>]) = Some (state', hp)"
    and p: "px hp = lerp (1/2) 3 0.25"
    by (auto simp: x initial_hand_state_def)
  have s0: "detect_slot far_hand_results 0 initial_hand_state = Some (state', hp)"
    using d by (simp add: detect_slot_def far_hand_results_def foundHandsCount_def js_index_def)
  have s1: "detect_slot far_hand_results 1 initial_hand_state = Some (detect_lost initial_hand_state)"
    by (rule lost_slot_one) (simp add: far_hand_results_def foundHandsCount_def)
  obtain s1' h1 where dl: "detect_lost initial_hand_state = (s1', h1)"
    by (cases "detect_lost initial_hand_state")
  have "detect far_hand_results (initial_hand_state, initial_hand_state) = Some ((state', s1'), (hp, h1))"
    unfolding detect_def fst_conv snd_conv s0 s1 dl by simp
  then have "run_detect initial_detect [far_hand_results] = Some ((state', s1'), (hp, h1))"
    by (simp add: initial_detect_def)
  then show "map_option (\<lambda>sd. px (fst (snd sd)))
     (run_detect initial_detect [far_hand_results]) = Some (9 / 8)"
    using p by (simp add: lerp_def)
qed

section \<open>Decay of the smear field\<close>










section \<open>The released spring comes to rest\<close>



































end
